theory Spec2Isabelle
  imports Main "HOL-Library.Sublist" "HOL-Library.AList" "HOL-Library.Char_ord" "HOL-Library.List_Lexorder"
begin

section \<open>Strings\<close>

text \<open>
  Go strings are byte sequences; they are modelled as \<open>string\<close> (a list of \<open>char\<close>).
  \<open>strings.HasPrefix s p\<close> is \<open>prefix p s\<close>, \<open>strings.HasSuffix s p\<close> is \<open>suffix p s\<close>
  and \<open>strings.Contains s p\<close> is \<open>sublist p s\<close>.
\<close>

definition HasPrefix :: "string \<Rightarrow> string \<Rightarrow> bool" where
  "HasPrefix s p = prefix p s"

definition HasSuffix :: "string \<Rightarrow> string \<Rightarrow> bool" where
  "HasSuffix s p = suffix p s"

definition TrimPrefix :: "string \<Rightarrow> string \<Rightarrow> string" where
  "TrimPrefix s p = (if HasPrefix s p then drop (length p) s else s)"

text \<open>
  \<open>strings.Split(s, sep)[0]\<close>: the part of \<open>s\<close> before the first occurrence of
  \<open>sep\<close>, all of \<open>s\<close> when \<open>sep\<close> does not occur. For an empty separator Go splits
  after each character, so the first piece is the first character.
\<close>

fun beforeSep :: "string \<Rightarrow> string \<Rightarrow> string" where
  "beforeSep sep [] = []"
| "beforeSep sep (c # cs) = (if prefix sep (c # cs) then [] else c # beforeSep sep cs)"

definition SplitFirst :: "string \<Rightarrow> string \<Rightarrow> string" where
  "SplitFirst s sep = (if sep = [] then take 1 s else beforeSep sep s)"

text \<open>
  \<open>path.Join(dir, name)\<close> for a clean directory path \<open>dir\<close> (not the root) and the
  name of one of its entries.
\<close>

definition path_Join :: "string \<Rightarrow> string \<Rightarrow> string" where
  "path_Join dir name = dir @ ''/'' @ name"


section \<open>Naming\<close>

text \<open>
  Modelled from the spec: the constants \<open>ConfigMapSeparator\<close> and
  \<open>FilePathAnnotationKey\<close> are declared in another file of the package. Their values
  are spelled out in the comments of \<open>configmap.go\<close>: a data file is named
  \<open>[namespace]-[configmap-name]-k2dcm-[key]\<close>, and the binds are built from the
  \<open>store.k2d.io/filesystem/path/*\<close> annotations.
\<close>

definition ConfigMapSeparator :: string where
  "ConfigMapSeparator = ''-k2dcm-''"

definition FilePathAnnotationKey :: string where
  "FilePathAnnotationKey = ''store.k2d.io/filesystem/path''"

definition buildConfigMapMetadataFileName :: "string \<Rightarrow> string \<Rightarrow> string" where
  "buildConfigMapMetadataFileName configMapName namespace =
     namespace @ ''-'' @ configMapName @ ''-k2dcm.metadata''"

definition buildConfigMapFilePrefix :: "string \<Rightarrow> string \<Rightarrow> string" where
  "buildConfigMapFilePrefix configMapName namespace =
     namespace @ ''-'' @ configMapName @ ConfigMapSeparator"


section \<open>The file system under the store\<close>

text \<open>
  The store keeps one flat directory, \<open>configMapPath\<close>. The model carries the store
  object together with the part of the file system it owns: the files of that
  directory by entry name, the clock the operating system stamps written files with,
  and the system calls the operating system refuses (\<open>denied op path\<close>), so that
  every error return of the Go code is a branch of the model. Entry names are opaque:
  the model does not look for path separators inside them. A directory holds one entry
  per name; where a proof needs it, the theorem assumes \<open>distinct (map fst (dir s))\<close>,
  which the writes and removals below preserve. The mutex makes each operation one
  atomic transition of this state.
\<close>

datatype sysop = OpReadDir | OpReadFile | OpStat | OpWriteFile | OpRemove

record diskfile =
  content :: string
  modTime :: nat

record FileSystemStore =
  configMapPath :: string
  dir :: "(string \<times> diskfile) list"
  clock :: nat
  denied :: "sysop \<Rightarrow> string \<Rightarrow> bool"

definition entryName :: "FileSystemStore \<Rightarrow> string \<Rightarrow> string option" where
  "entryName s p =
     (if prefix (configMapPath s @ ''/'') p
      then Some (drop (length (configMapPath s) + 1) p) else None)"

text \<open>\<open>os.ReadDir\<close> returns the entries sorted by file name; the code only uses the names.\<close>

definition os_ReadDir :: "FileSystemStore \<Rightarrow> string \<Rightarrow> string list option" where
  "os_ReadDir s p =
     (if denied s OpReadDir p \<or> p \<noteq> configMapPath s then None
      else Some (sort (map fst (dir s))))"

definition os_ReadFile :: "FileSystemStore \<Rightarrow> string \<Rightarrow> string option" where
  "os_ReadFile s p =
     (case entryName s p of
        None \<Rightarrow> None
      | Some n \<Rightarrow> if denied s OpReadFile p then None else map_option content (map_of (dir s) n))"

definition os_Stat :: "FileSystemStore \<Rightarrow> string \<Rightarrow> nat option" where
  "os_Stat s p =
     (case entryName s p of
        None \<Rightarrow> None
      | Some n \<Rightarrow> if denied s OpStat p then None else map_option modTime (map_of (dir s) n))"

text \<open>The boolean of a state-changing call tells whether it succeeded.\<close>

definition os_Remove :: "FileSystemStore \<Rightarrow> string \<Rightarrow> FileSystemStore \<times> bool" where
  "os_Remove s p =
     (case entryName s p of
        None \<Rightarrow> (s, False)
      | Some n \<Rightarrow>
          if denied s OpRemove p \<or> map_of (dir s) n = None then (s, False)
          else (s\<lparr>dir := AList.delete n (dir s)\<rparr>, True))"

definition os_WriteFile :: "FileSystemStore \<Rightarrow> string \<Rightarrow> string \<Rightarrow> FileSystemStore \<times> bool" where
  "os_WriteFile s p bytes =
     (case entryName s p of
        None \<Rightarrow> (s, False)
      | Some n \<Rightarrow>
          if denied s OpWriteFile p then (s, False)
          else (s\<lparr>dir := AList.update n \<lparr>content = bytes, modTime = clock s\<rparr> (dir s)\<rparr>, True))"

section \<open>Resources and errors\<close>

text \<open>
  A Go \<open>map[string]string\<close> is an association list with distinct keys; \<open>m[k] = v\<close> is
  \<open>AList.update k v m\<close>, and \<open>range m\<close> visits the list in order (Go leaves the order
  open). The zero \<open>metav1.Time\<close> is \<open>None\<close>.
\<close>

record ConfigMap =
  Kind :: string
  APIVersion :: string
  Name :: string
  Namespace :: string
  Labels :: "(string \<times> string) list"
  Annotations :: "(string \<times> string) list"
  Data :: "(string \<times> string) list"
  CreationTimestamp :: "nat option"

text \<open>
  The errors the operations return: the sentinel \<open>errors.ErrResourceNotFound\<close> and one
  constructor per wrapping message of \<open>configmap.go\<close>. The cause of a failed metadata
  load is kept, after the taxonomy of the spec.
\<close>

datatype cause = IOFailure | EncodingFailure

datatype error =
    ErrResourceNotFound
  | UnableToReadDirectory
  | UnableToRemoveMetadataFile string
  | UnableToRemoveDataFile string
  | UnableToLoadMetadata cause
  | UnableToReadFile string
  | UnableToGetFileInfo string
  | UnableToStoreMetadata
  | UnableToStoreData

section \<open>Helper packages\<close>

text \<open>
  Modelled from the spec: the constant \<open>NamespaceNameLabelKey\<close> and the metadata codec
  behind \<open>filesystem.StoreMetadataOnDisk\<close> and \<open>filesystem.LoadMetadataFromDisk\<close> are
  declared in other files of the repository, and the spec fixes neither the key nor the
  file format. They are parameters of the model.
\<close>

record deps =
  NamespaceNameLabelKey :: string
  encodeMetadata :: "(string \<times> string) list \<Rightarrow> string"
  decodeMetadata :: "string \<Rightarrow> (string \<times> string) list option"

text \<open>
  Modelled from the spec: \<open>filesystem.LoadMetadataFromDisk\<close> (package \<open>pkg/filesystem\<close>)
  reads the metadata file and deserialises the label map; the read can fail (IOFailure)
  and so can the decoding (EncodingFailure).
\<close>

definition LoadMetadataFromDisk ::
  "deps \<Rightarrow> FileSystemStore \<Rightarrow> string \<Rightarrow> string \<Rightarrow> cause + (string \<times> string) list" where
  "LoadMetadataFromDisk d s storagePath fileName =
     (case os_ReadFile s (path_Join storagePath fileName) of
        None \<Rightarrow> Inl IOFailure
      | Some bytes \<Rightarrow>
          (case decodeMetadata d bytes of
             None \<Rightarrow> Inl EncodingFailure
           | Some m \<Rightarrow> Inr m))"

text \<open>
  Modelled from the spec: \<open>filesystem.StoreMetadataOnDisk\<close> (package \<open>pkg/filesystem\<close>)
  writes the serialised label map to the metadata file.
\<close>

definition StoreMetadataOnDisk ::
  "deps \<Rightarrow> FileSystemStore \<Rightarrow> string \<Rightarrow> string \<Rightarrow> (string \<times> string) list
     \<Rightarrow> FileSystemStore \<times> bool" where
  "StoreMetadataOnDisk d s storagePath fileName labels =
     os_WriteFile s (path_Join storagePath fileName) (encodeMetadata d labels)"

text \<open>
  Modelled from the spec: \<open>filesystem.StoreDataMapOnDisk\<close> (package \<open>pkg/filesystem\<close>)
  writes one data file per key, named by the prefix followed by the key, overwriting
  any file of that name; the first failing write ends it.
\<close>

fun StoreDataMapOnDisk ::
  "FileSystemStore \<Rightarrow> string \<Rightarrow> string \<Rightarrow> (string \<times> string) list \<Rightarrow> FileSystemStore \<times> bool" where
  "StoreDataMapOnDisk s storagePath filePrefix [] = (s, True)"
| "StoreDataMapOnDisk s storagePath filePrefix ((key, v) # rest) =
     (case os_WriteFile s (path_Join storagePath (filePrefix @ key)) v of
        (s', False) \<Rightarrow> (s', False)
      | (s', True) \<Rightarrow> StoreDataMapOnDisk s' storagePath filePrefix rest)"

text \<open>
  Modelled from the spec: \<open>maputils.MergeMapsInPlace\<close> (package \<open>pkg/maputils\<close>) copies
  every entry of the second map into the first.
\<close>

definition MergeMapsInPlace ::
  "(string \<times> string) list \<Rightarrow> (string \<times> string) list \<Rightarrow> (string \<times> string) list" where
  "MergeMapsInPlace m1 m2 = fold (\<lambda>(k, v) m. AList.update k v m) m2 m1"

text \<open>
  Modelled from the spec: the three helpers of \<open>pkg/strings\<close> behind the namespace-wide
  listing. \<open>UniquePrefixes\<close> reduces the file names to the set of their parts before the
  separator, \<open>FilterStringsByPrefix\<close> keeps the strings that start with the given prefix
  (the call site passes the bare namespace) and \<open>RemoveItemsWithSuffix\<close> drops the
  strings that end with the given suffix.
\<close>

definition UniquePrefixes :: "string list \<Rightarrow> string \<Rightarrow> string list" where
  "UniquePrefixes strs separator = remdups (map (\<lambda>s. SplitFirst s separator) strs)"

definition FilterStringsByPrefix :: "string list \<Rightarrow> string \<Rightarrow> string list" where
  "FilterStringsByPrefix strs p = filter (\<lambda>s. HasPrefix s p) strs"

definition RemoveItemsWithSuffix :: "string list \<Rightarrow> string \<Rightarrow> string list" where
  "RemoveItemsWithSuffix strs sfx = filter (\<lambda>s. \<not> HasSuffix s sfx) strs"

section \<open>The store operations\<close>

text \<open>The search loop shared by Get and Delete: does any entry carry the prefix?\<close>

definition hasMatchingConfigMapFile :: "string list \<Rightarrow> string \<Rightarrow> bool" where
  "hasMatchingConfigMapFile files filePrefix = list_ex (\<lambda>f. HasPrefix f filePrefix) files"

subsection \<open>DeleteConfigMap\<close>

text \<open>
  The second loop of \<open>DeleteConfigMap\<close>, over the entries listed at the start: every
  entry with the prefix is removed, and the first failing removal ends the operation.
\<close>

fun removeDataFiles ::
  "FileSystemStore \<Rightarrow> string \<Rightarrow> string list \<Rightarrow> FileSystemStore \<times> error option" where
  "removeDataFiles s filePrefix [] = (s, None)"
| "removeDataFiles s filePrefix (f # files) =
     (if HasPrefix f filePrefix then
        (case os_Remove s (path_Join (configMapPath s) f) of
           (s', False) \<Rightarrow> (s', Some (UnableToRemoveDataFile f))
         | (s', True) \<Rightarrow> removeDataFiles s' filePrefix files)
      else removeDataFiles s filePrefix files)"

definition DeleteConfigMap ::
  "FileSystemStore \<Rightarrow> string \<Rightarrow> string \<Rightarrow> FileSystemStore \<times> error option" where
  "DeleteConfigMap s configMapName namespace =
     (case os_ReadDir s (configMapPath s) of
        None \<Rightarrow> (s, Some UnableToReadDirectory)
      | Some files \<Rightarrow>
          let filePrefix = buildConfigMapFilePrefix configMapName namespace in
          if \<not> hasMatchingConfigMapFile files filePrefix then (s, Some ErrResourceNotFound)
          else
            let metadataFileName = buildConfigMapMetadataFileName configMapName namespace in
            (case os_Remove s (path_Join (configMapPath s) metadataFileName) of
               (s', False) \<Rightarrow> (s', Some (UnableToRemoveMetadataFile metadataFileName))
             | (s', True) \<Rightarrow> removeDataFiles s' filePrefix files))"

subsection \<open>GetConfigMapBinds\<close>

definition GetConfigMapBinds :: "ConfigMap \<Rightarrow> (string \<times> string) list \<times> error option" where
  "GetConfigMapBinds configMap =
     (fold (\<lambda>(key, v) binds.
              if HasPrefix key FilePathAnnotationKey
              then AList.update (TrimPrefix key (FilePathAnnotationKey @ ''/'')) v binds
              else binds)
           (Annotations configMap) [],
      None)"

subsection \<open>GetConfigMap\<close>

text \<open>The annotation key the loop of \<open>GetConfigMap\<close> builds for a data key.\<close>

definition annotationKey :: "string \<Rightarrow> string" where
  "annotationKey k = FilePathAnnotationKey @ ''/'' @ k"

text \<open>
  The loop of \<open>GetConfigMap\<close> over the listed entries: for each entry with the prefix
  its content becomes the value of the key left after the prefix, its modification
  time becomes the creation timestamp (the last entry wins), and the path annotation of
  the key is set.
\<close>

fun readDataFiles ::
  "FileSystemStore \<Rightarrow> string \<Rightarrow> string list \<Rightarrow> ConfigMap \<Rightarrow> error + ConfigMap" where
  "readDataFiles s filePrefix [] configMap = Inr configMap"
| "readDataFiles s filePrefix (f # files) configMap =
     (if HasPrefix f filePrefix then
        (case os_ReadFile s (path_Join (configMapPath s) f) of
           None \<Rightarrow> Inl (UnableToReadFile f)
         | Some bytes \<Rightarrow>
             (case os_Stat s (path_Join (configMapPath s) f) of
                None \<Rightarrow> Inl (UnableToGetFileInfo f)
              | Some info \<Rightarrow>
                  readDataFiles s filePrefix files
                    (configMap\<lparr>
                       Data := AList.update (TrimPrefix f filePrefix) bytes (Data configMap),
                       CreationTimestamp := Some info,
                       Annotations :=
                         AList.update (FilePathAnnotationKey @ ''/'' @ TrimPrefix f filePrefix)
                           (path_Join (configMapPath s) f) (Annotations configMap)\<rparr>)))
      else readDataFiles s filePrefix files configMap)"

definition GetConfigMap ::
  "deps \<Rightarrow> FileSystemStore \<Rightarrow> string \<Rightarrow> string \<Rightarrow> error + ConfigMap" where
  "GetConfigMap d s configMapName namespace =
     (case os_ReadDir s (configMapPath s) of
        None \<Rightarrow> Inl UnableToReadDirectory
      | Some files \<Rightarrow>
          let filePrefix = buildConfigMapFilePrefix configMapName namespace in
          if \<not> hasMatchingConfigMapFile files filePrefix then Inl ErrResourceNotFound
          else
            let configMap = \<lparr>Kind = ''ConfigMap'', APIVersion = ''v1'',
                  Name = configMapName, Namespace = namespace, Labels = [],
                  Annotations = [], Data = [], CreationTimestamp = None\<rparr>;
                metadataFileName = buildConfigMapMetadataFileName configMapName namespace
            in
            (case LoadMetadataFromDisk d s (configMapPath s) metadataFileName of
               Inl c \<Rightarrow> Inl (UnableToLoadMetadata c)
             | Inr metadata \<Rightarrow>
                 readDataFiles s filePrefix files (configMap\<lparr>Labels := metadata\<rparr>)))"

subsection \<open>GetConfigMaps\<close>

text \<open>
  The inner loop of \<open>GetConfigMaps\<close> over the listed entries: data and timestamp as in
  \<open>GetConfigMap\<close>; no annotation is written.
\<close>

fun listDataFiles ::
  "FileSystemStore \<Rightarrow> string \<Rightarrow> string list \<Rightarrow> ConfigMap \<Rightarrow> error + ConfigMap" where
  "listDataFiles s filePrefix [] configMap = Inr configMap"
| "listDataFiles s filePrefix (f # files) configMap =
     (if HasPrefix f filePrefix then
        (case os_ReadFile s (path_Join (configMapPath s) f) of
           None \<Rightarrow> Inl (UnableToReadFile f)
         | Some bytes \<Rightarrow>
             (case os_Stat s (path_Join (configMapPath s) f) of
                None \<Rightarrow> Inl (UnableToGetFileInfo f)
              | Some info \<Rightarrow>
                  listDataFiles s filePrefix files
                    (configMap\<lparr>
                       Data := AList.update (TrimPrefix f filePrefix) bytes (Data configMap),
                       CreationTimestamp := Some info\<rparr>)))
      else listDataFiles s filePrefix files configMap)"

text \<open>A key that is not in a Go map reads as the empty string.\<close>

definition mapIndex :: "(string \<times> string) list \<Rightarrow> string \<Rightarrow> string" where
  "mapIndex m k = (case map_of m k of None \<Rightarrow> [] | Some v \<Rightarrow> v)"

text \<open>The body of the loop over the unique names: one list item.\<close>

definition listItem ::
  "deps \<Rightarrow> FileSystemStore \<Rightarrow> string list \<Rightarrow> string \<Rightarrow> error + ConfigMap" where
  "listItem d s files name =
     (let configMap = \<lparr>Kind = ''ConfigMap'', APIVersion = ''v1'', Name = [], Namespace = [],
            Labels = [], Annotations = [], Data = [], CreationTimestamp = None\<rparr>;
          metadataFileName = name @ ''-k2dcm.metadata''
      in
      (case LoadMetadataFromDisk d s (configMapPath s) metadataFileName of
         Inl c \<Rightarrow> Inl (UnableToLoadMetadata c)
       | Inr metadata \<Rightarrow>
           let ns = mapIndex metadata (NamespaceNameLabelKey d);
               nm = TrimPrefix name (ns @ ''-'');
               filePrefix = buildConfigMapFilePrefix nm ns
           in listDataFiles s filePrefix files
                (configMap\<lparr>Labels := metadata, Namespace := ns, Name := nm\<rparr>)))"

text \<open>The loop over the unique names; the first failing item ends the listing.\<close>

fun listItems ::
  "deps \<Rightarrow> FileSystemStore \<Rightarrow> string list \<Rightarrow> string list \<Rightarrow> error + ConfigMap list" where
  "listItems d s files [] = Inr []"
| "listItems d s files (name # names) =
     (case listItem d s files name of
        Inl e \<Rightarrow> Inl e
      | Inr configMap \<Rightarrow>
          (case listItems d s files names of
             Inl e \<Rightarrow> Inl e
           | Inr configMaps \<Rightarrow> Inr (configMap # configMaps)))"

text \<open>The result is the \<open>Items\<close> field of the returned \<open>ConfigMapList\<close>.\<close>

definition GetConfigMaps :: "deps \<Rightarrow> FileSystemStore \<Rightarrow> string \<Rightarrow> error + ConfigMap list" where
  "GetConfigMaps d s namespace =
     (case os_ReadDir s (configMapPath s) of
        None \<Rightarrow> Inl UnableToReadDirectory
      | Some files \<Rightarrow>
          let fileNames = files;
              uniqueNames = UniquePrefixes fileNames ConfigMapSeparator;
              uniqueNames = FilterStringsByPrefix uniqueNames namespace;
              uniqueNames = RemoveItemsWithSuffix uniqueNames ''.metadata''
          in listItems d s files uniqueNames)"

subsection \<open>StoreConfigMap\<close>

definition StoreConfigMap ::
  "deps \<Rightarrow> FileSystemStore \<Rightarrow> ConfigMap \<Rightarrow> FileSystemStore \<times> error option" where
  "StoreConfigMap d s configMap =
     (let labels = MergeMapsInPlace [(NamespaceNameLabelKey d, Namespace configMap)]
                     (Labels configMap);
          metadataFileName = buildConfigMapMetadataFileName (Name configMap) (Namespace configMap)
      in
      (case StoreMetadataOnDisk d s (configMapPath s) metadataFileName labels of
         (s', False) \<Rightarrow> (s', Some UnableToStoreMetadata)
       | (s', True) \<Rightarrow>
           let filePrefix = buildConfigMapFilePrefix (Name configMap) (Namespace configMap) in
           (case StoreDataMapOnDisk s' (configMapPath s') filePrefix (Data configMap) of
              (s'', False) \<Rightarrow> (s'', Some UnableToStoreData)
            | (s'', True) \<Rightarrow> (s'', None))))"

section \<open>Well-formed store directories\<close>

text \<open>
  What \<open>StoreConfigMap\<close> leaves behind for resources with legal names, stated for an
  arbitrary directory: each metadata file (an entry that ends in \<open>-k2dcm.metadata\<close>)
  that decodes records, under the namespace label, a namespace that its file name
  starts with; and each entry ends in \<open>.metadata\<close> or contains the separator.
\<close>

definition stripSuffix :: "string \<Rightarrow> string \<Rightarrow> string option" where
  "stripSuffix sfx s = (if suffix sfx s then Some (take (length s - length sfx) s) else None)"

definition metadataAgrees :: "deps \<Rightarrow> FileSystemStore \<Rightarrow> bool" where
  "metadataAgrees d s =
     list_all (\<lambda>(f, df).
        case stripSuffix ''-k2dcm.metadata'' f of
          None \<Rightarrow> True
        | Some ident \<Rightarrow>
            (case decodeMetadata d (content df) of
               None \<Rightarrow> True
             | Some m \<Rightarrow> HasPrefix ident (mapIndex m (NamespaceNameLabelKey d) @ ''-'')))
       (dir s)"

definition entriesTagged :: "FileSystemStore \<Rightarrow> bool" where
  "entriesTagged s =
     list_all (\<lambda>(f, df). HasSuffix f ''.metadata'' \<or> sublist ConfigMapSeparator f) (dir s)"

section \<open>A concrete instance of the parameters\<close>

text \<open>
  The theorems below hold for every choice of the parameters. To run the model on
  concrete stores, this instance writes one \<open>key=value\<close> line per label.
\<close>

definition kvEncode :: "(string \<times> string) list \<Rightarrow> string" where
  "kvEncode m = concat (map (\<lambda>(k, v). k @ ''='' @ v @ [CHR 10]) m)"

fun kvLines :: "string \<Rightarrow> string \<Rightarrow> string list" where
  "kvLines acc [] = (if acc = [] then [] else [rev acc])"
| "kvLines acc (c # cs) = (if c = CHR 10 then rev acc # kvLines [] cs else kvLines (c # acc) cs)"

definition kvParseLine :: "string \<Rightarrow> (string \<times> string) option" where
  "kvParseLine l =
     (if CHR ''='' \<in> set l
      then Some (takeWhile (\<lambda>c. c \<noteq> CHR ''='') l, drop 1 (dropWhile (\<lambda>c. c \<noteq> CHR ''='') l))
      else None)"

definition kvDecode :: "string \<Rightarrow> (string \<times> string) list option" where
  "kvDecode bytes = those (map kvParseLine (kvLines [] bytes))"

definition k2d :: deps where
  "k2d = \<lparr>NamespaceNameLabelKey = ''store.k2d.io/namespace-name'',
          encodeMetadata = kvEncode, decodeMetadata = kvDecode\<rparr>"

definition emptyStore :: FileSystemStore where
  "emptyStore = \<lparr>configMapPath = ''/var/lib/k2d/configmaps'', dir = [], clock = 0,
                 denied = (\<lambda>op p. False)\<rparr>"

definition newConfigMap ::
  "string \<Rightarrow> string \<Rightarrow> (string \<times> string) list \<Rightarrow> (string \<times> string) list \<Rightarrow> ConfigMap" where
  "newConfigMap nm ns labels kvs =
     \<lparr>Kind = ''ConfigMap'', APIVersion = ''v1'', Name = nm, Namespace = ns, Labels = labels,
      Annotations = [], Data = kvs, CreationTimestamp = None\<rparr>"

section \<open>Concrete stores\<close>

text \<open>The scenario of the spec: one resource with a label and two keys.\<close>

definition storedOnce :: FileSystemStore where
  "storedOnce =
     fst (StoreConfigMap k2d emptyStore
            (newConfigMap ''app-config'' ''default'' [(''env'', ''prod'')]
               [(''A'', ''1''), (''B'', ''2'')]))"

text \<open>Two resources in the namespaces \<open>a\<close> and \<open>a-b\<close>.\<close>

definition twoNamespaces :: FileSystemStore where
  "twoNamespaces =
     fst (StoreConfigMap k2d
            (fst (StoreConfigMap k2d emptyStore (newConfigMap ''x'' ''a'' [] [(''K'', ''1'')])))
            (newConfigMap ''y'' ''a-b'' [] [(''K'', ''2'')]))"


text \<open>A resource whose metadata file is gone while a data file remains.\<close>

definition halfDeleted :: FileSystemStore where
  "halfDeleted = emptyStore\<lparr>dir := [(''a-x-k2dcm-K'', \<lparr>content = ''1'', modTime = 0\<rparr>)]\<rparr>"

text \<open>An update of the resource of the scenario that changes key \<open>A\<close> and drops key \<open>B\<close>.\<close>

definition updatedConfigMap :: ConfigMap where
  "updatedConfigMap = newConfigMap ''app-config'' ''default'' [(''env'', ''prod'')] [(''A'', ''9'')]"

text \<open>
  Two directories that no Store of a legal resource leaves behind: an entry without the
  separator next to a metadata file, and a metadata file whose namespace label names a
  namespace other than the one in its file name.
\<close>

definition strayEntry :: FileSystemStore where
  "strayEntry = emptyStore\<lparr>dir :=
     [(''a-foo'', \<lparr>content = ''1'', modTime = 0\<rparr>),
      (''a-foo-k2dcm.metadata'',
       \<lparr>content = kvEncode [(''store.k2d.io/namespace-name'', ''a'')], modTime = 0\<rparr>)]\<rparr>"

definition mislabelled :: FileSystemStore where
  "mislabelled = emptyStore\<lparr>dir :=
     [(''a-x-k2dcm-K'', \<lparr>content = ''1'', modTime = 0\<rparr>),
      (''a-x-k2dcm.metadata'',
       \<lparr>content = kvEncode [(''store.k2d.io/namespace-name'', ''zz'')], modTime = 0\<rparr>)]\<rparr>"

section \<open>Basic facts about the model\<close>

lemma entryName_Join [simp]: "entryName s (path_Join (configMapPath s) n) = Some n"
  by (simp add: entryName_def path_Join_def)

lemma os_Remove_False: "os_Remove s p = (s', False) \<Longrightarrow> s' = s"
  by (auto simp: os_Remove_def split: option.splits if_splits)

lemma os_Remove_True:
  "os_Remove s (path_Join (configMapPath s) n) = (s', True) \<Longrightarrow>
     s' = s\<lparr>dir := AList.delete n (dir s)\<rparr>"
  by (auto simp: os_Remove_def split: option.splits if_splits)

lemma os_ReadDir_Some:
  "os_ReadDir s (configMapPath s) = Some files \<Longrightarrow>
     \<not> denied s OpReadDir (configMapPath s) \<and> files = sort (map fst (dir s))"
  by (auto simp: os_ReadDir_def split: if_splits)

lemma hasMatching_iff:
  "hasMatchingConfigMapFile files p \<longleftrightarrow> (\<exists>f \<in> set files. HasPrefix f p)"
  by (simp add: hasMatchingConfigMapFile_def list_ex_iff)




section \<open>The bind extractor never fails\<close>

text \<open>
  Claim C10. For every ConfigMap, whatever its annotation map, \<open>GetConfigMapBinds\<close>
  returns a nil error: the extractor is total. For a nil or empty annotation map the
  loop body never runs and the binds are empty.
\<close>

theorem GetConfigMapBinds_total:
  "snd (GetConfigMapBinds configMap) = None
   \<and> GetConfigMapBinds (configMap\<lparr>Annotations := []\<rparr>) = ([], None)"
  by (simp add: GetConfigMapBinds_def)

section \<open>Existence is decided by the data files\<close>



section \<open>Delete gives up before touching data files when the metadata file stays\<close>

text \<open>
  Claim C7. For a resource present in the store (some entry starts with its data-file
  prefix), if the removal of the metadata file fails during \<open>DeleteConfigMap\<close>, the
  operation returns that failure and the store is left exactly as it was: no data file
  is removed.
\<close>

theorem Delete_metadata_failure_changes_nothing:
  assumes "\<not> denied s OpReadDir (configMapPath s)"
    and "\<exists>f \<in> fst ` set (dir s). HasPrefix f (buildConfigMapFilePrefix n ns)"
    and "\<not> snd (os_Remove s (path_Join (configMapPath s) (buildConfigMapMetadataFileName n ns)))"
  shows "DeleteConfigMap s n ns
           = (s, Some (UnableToRemoveMetadataFile (buildConfigMapMetadataFileName n ns)))"
proof -
  have rd: "os_ReadDir s (configMapPath s) = Some (sort (map fst (dir s)))"
    using assms(1) by (simp add: os_ReadDir_def)
  obtain s' where r: "os_Remove s (path_Join (configMapPath s) (buildConfigMapMetadataFileName n ns)) = (s', False)"
    using assms(3) by (cases "os_Remove s (path_Join (configMapPath s) (buildConfigMapMetadataFileName n ns))") auto
  then have "s' = s" by (rule os_Remove_False)
  with r assms(2) show ?thesis
    by (auto simp: DeleteConfigMap_def rd hasMatching_iff Let_def)
qed

theorem Delete_metadata_failure_changes_nothing_witness:
  "\<not> denied halfDeleted OpReadDir (configMapPath halfDeleted)
   \<and> (\<exists>f \<in> fst ` set (dir halfDeleted). HasPrefix f (buildConfigMapFilePrefix ''x'' ''a''))
   \<and> \<not> snd (os_Remove halfDeleted
              (path_Join (configMapPath halfDeleted) (buildConfigMapMetadataFileName ''x'' ''a'')))
   \<and> DeleteConfigMap halfDeleted ''x'' ''a''
       = (halfDeleted, Some (UnableToRemoveMetadataFile (buildConfigMapMetadataFileName ''x'' ''a'')))"
proof -
  have h1: "\<not> denied halfDeleted OpReadDir (configMapPath halfDeleted)"
    by code_simp
  have h2: "\<exists>f \<in> fst ` set (dir halfDeleted). HasPrefix f (buildConfigMapFilePrefix ''x'' ''a'')"
    by code_simp
  have h3: "\<not> snd (os_Remove halfDeleted
              (path_Join (configMapPath halfDeleted) (buildConfigMapMetadataFileName ''x'' ''a'')))"
    by code_simp
  from Delete_metadata_failure_changes_nothing[OF h1 h2 h3] h1 h2 h3
  show ?thesis by blast
qed

section \<open>A successful Delete leaves nothing behind\<close>

lemma removeDataFiles_ok:
  "removeDataFiles s p files = (s', None) \<Longrightarrow>
     configMapPath s' = configMapPath s \<and> denied s' = denied s \<and>
     fst ` set (dir s') \<subseteq> fst ` set (dir s) \<and>
     (\<forall>f \<in> fst ` set (dir s'). \<not> (f \<in> set files \<and> HasPrefix f p))"
proof (induction files arbitrary: s)
  case Nil
  then show ?case by simp
next
  case (Cons f files)
  show ?case
  proof (cases "HasPrefix f p")
    case False
    with Cons show ?thesis by auto
  next
    case True
    with Cons.prems obtain s1 where
      r: "os_Remove s (path_Join (configMapPath s) f) = (s1, True)"
      and rest: "removeDataFiles s1 p files = (s', None)"
      by (auto split: prod.splits bool.splits)
    from r have s1: "s1 = s\<lparr>dir := AList.delete f (dir s)\<rparr>" by (rule os_Remove_True)
    from Cons.IH[OF rest] s1 show ?thesis
      by (auto simp: AList.delete_eq)
  qed
qed

text \<open>
  Claim C6. If \<open>DeleteConfigMap\<close> returns success, then a following \<open>GetConfigMap\<close> for
  the same name and namespace returns \<open>ErrResourceNotFound\<close>, and the store directory
  holds no entry that starts with the resource's data-file prefix, nor its metadata
  file.
\<close>

theorem Delete_success_complete:
  assumes "DeleteConfigMap s n ns = (s', None)"
  shows "GetConfigMap d s' n ns = Inl ErrResourceNotFound
       \<and> (\<forall>f \<in> fst ` set (dir s'). \<not> HasPrefix f (buildConfigMapFilePrefix n ns))
       \<and> buildConfigMapMetadataFileName n ns \<notin> fst ` set (dir s')"
proof -
  let ?p = "buildConfigMapFilePrefix n ns"
  let ?m = "buildConfigMapMetadataFileName n ns"
  from assms obtain files where rd: "os_ReadDir s (configMapPath s) = Some files"
    by (auto simp: DeleteConfigMap_def split: option.splits)
  then have ok: "\<not> denied s OpReadDir (configMapPath s)" and files: "files = sort (map fst (dir s))"
    using os_ReadDir_Some by blast+
  from assms rd obtain s1 where
    r: "os_Remove s (path_Join (configMapPath s) ?m) = (s1, True)"
    and rest: "removeDataFiles s1 ?p files = (s', None)"
    by (auto simp: DeleteConfigMap_def Let_def split: if_splits prod.splits bool.splits)
  from r have s1: "s1 = s\<lparr>dir := AList.delete ?m (dir s)\<rparr>" by (rule os_Remove_True)
  from removeDataFiles_ok[OF rest] s1 files
  have path: "configMapPath s' = configMapPath s" and den: "denied s' = denied s"
    and sub: "fst ` set (dir s') \<subseteq> fst ` set (AList.delete ?m (dir s))"
    and gone: "\<forall>f \<in> fst ` set (dir s'). \<not> (f \<in> fst ` set (dir s) \<and> HasPrefix f ?p)"
    by auto
  have nopfx: "\<forall>f \<in> fst ` set (dir s'). \<not> HasPrefix f ?p"
    using sub gone by (auto simp: AList.delete_eq)
  have nometa: "?m \<notin> fst ` set (dir s')"
    using sub by (auto simp: AList.delete_eq)
  have "os_ReadDir s' (configMapPath s') = Some (sort (map fst (dir s')))"
    using ok path den by (simp add: os_ReadDir_def)
  then have "GetConfigMap d s' n ns = Inl ErrResourceNotFound"
    using nopfx by (simp add: GetConfigMap_def hasMatching_iff Let_def)
  with nopfx nometa show ?thesis by blast
qed

theorem Delete_success_complete_witness:
  "DeleteConfigMap twoNamespaces ''x'' ''a'' = (fst (DeleteConfigMap twoNamespaces ''x'' ''a''), None)
   \<and> GetConfigMap k2d (fst (DeleteConfigMap twoNamespaces ''x'' ''a'')) ''x'' ''a''
       = Inl ErrResourceNotFound
   \<and> \<not> (\<exists>f \<in> fst ` set (dir (fst (DeleteConfigMap twoNamespaces ''x'' ''a''))).
           HasPrefix f (buildConfigMapFilePrefix ''x'' ''a''))
   \<and> buildConfigMapMetadataFileName ''x'' ''a''
       \<notin> fst ` set (dir (fst (DeleteConfigMap twoNamespaces ''x'' ''a'')))
   \<and> map fst (dir (fst (DeleteConfigMap twoNamespaces ''x'' ''a'')))
       = [''a-b-y-k2dcm.metadata'', ''a-b-y-k2dcm-K'']"
proof -
  have "snd (DeleteConfigMap twoNamespaces ''x'' ''a'') = None"
    by code_simp
  then have h: "DeleteConfigMap twoNamespaces ''x'' ''a''
                  = (fst (DeleteConfigMap twoNamespaces ''x'' ''a''), None)"
    by (simp add: prod_eq_iff)
  have r: "map fst (dir (fst (DeleteConfigMap twoNamespaces ''x'' ''a'')))
             = [''a-b-y-k2dcm.metadata'', ''a-b-y-k2dcm-K'']"
    by code_simp
  from Delete_success_complete[OF h, of k2d] h r
  show ?thesis by blast
qed

section \<open>The naming codec\<close>









section \<open>Writing and reading back\<close>

lemma metadata_name_not_data_name:
  "buildConfigMapMetadataFileName n ns \<noteq> buildConfigMapFilePrefix n ns @ k"
  by (simp add: buildConfigMapMetadataFileName_def buildConfigMapFilePrefix_def
      ConfigMapSeparator_def)

lemma HasPrefix_append [simp]: "HasPrefix (p @ k) p"
  by (simp add: HasPrefix_def)

lemma TrimPrefix_append [simp]: "TrimPrefix (p @ k) p = k"
  by (simp add: TrimPrefix_def)

lemma HasPrefix_decompose: "HasPrefix f p \<Longrightarrow> f = p @ TrimPrefix f p"
  by (auto simp: HasPrefix_def TrimPrefix_def prefix_def)

lemma entryName_Join_eq: "configMapPath s = P \<Longrightarrow> entryName s (path_Join P n) = Some n"
  by (simp add: entryName_def path_Join_def)

lemma os_WriteFile_entry:
  "configMapPath s = P \<Longrightarrow>
   os_WriteFile s (path_Join P n) bytes =
     (if denied s OpWriteFile (path_Join P n) then (s, False)
      else (s\<lparr>dir := AList.update n \<lparr>content = bytes, modTime = clock s\<rparr> (dir s)\<rparr>, True))"
  by (simp add: os_WriteFile_def entryName_Join_eq)

lemma os_ReadFile_entry:
  "configMapPath s = P \<Longrightarrow>
   os_ReadFile s (path_Join P n) =
     (if denied s OpReadFile (path_Join P n) then None
      else map_option content (map_of (dir s) n))"
  by (simp add: os_ReadFile_def entryName_Join_eq)

lemma os_Stat_entry:
  "configMapPath s = P \<Longrightarrow>
   os_Stat s (path_Join P n) =
     (if denied s OpStat (path_Join P n) then None
      else map_option modTime (map_of (dir s) n))"
  by (simp add: os_Stat_def entryName_Join_eq)






lemma readDataFiles_fields:
  "readDataFiles s p files cm = Inr r \<Longrightarrow>
     Name r = Name cm \<and> Namespace r = Namespace cm \<and> Labels r = Labels cm
     \<and> Kind r = Kind cm \<and> APIVersion r = APIVersion cm"
  by (induction files arbitrary: cm) (auto split: if_splits option.splits)

lemma readDataFiles_succeeds:
  assumes "\<forall>f \<in> set files. HasPrefix f p \<longrightarrow>
             os_ReadFile s (path_Join (configMapPath s) f) \<noteq> None
           \<and> os_Stat s (path_Join (configMapPath s) f) \<noteq> None"
  shows "\<exists>r. readDataFiles s p files cm = Inr r"
  using assms by (induction files arbitrary: cm) (auto split: option.splits)

lemma readDataFiles_Data:
  assumes "readDataFiles s p files cm = Inr r" and "distinct files"
  shows "map_of (Data r) k =
           (if p @ k \<in> set files then map_option content (map_of (dir s) (p @ k))
            else map_of (Data cm) k)"
  using assms
proof (induction files arbitrary: cm)
  case Nil
  then show ?case by simp
next
  case (Cons f files)
  show ?case
  proof (cases "HasPrefix f p")
    case False
    then have "p @ k \<noteq> f" by auto
    with False Cons show ?thesis by auto
  next
    case True
    then have f: "f = p @ TrimPrefix f p" by (rule HasPrefix_decompose)
    from True Cons.prems(1) obtain bytes info where
      rd: "os_ReadFile s (path_Join (configMapPath s) f) = Some bytes"
      and rest: "readDataFiles s p files
                   (cm\<lparr>Data := AList.update (TrimPrefix f p) bytes (Data cm),
                       CreationTimestamp := Some info,
                       Annotations := AList.update (FilePathAnnotationKey @ ''/'' @ TrimPrefix f p)
                           (path_Join (configMapPath s) f) (Annotations cm)\<rparr>) = Inr r"
      by (auto split: option.splits)
    from rd have c: "map_option content (map_of (dir s) f) = Some bytes"
      by (auto simp: os_ReadFile_entry split: if_splits)
    from Cons.prems(2) have d: "distinct files" and nf: "f \<notin> set files" by auto
    show ?thesis
    proof (cases "p @ k = f")
      case True
      with f have "TrimPrefix f p = k" by (metis same_append_eq)
      with Cons.IH[OF rest d] True nf c show ?thesis
        by (auto simp: update_conv')
    next
      case False
      with f have "TrimPrefix f p \<noteq> k" by auto
      with Cons.IH[OF rest d] False show ?thesis
        by (simp add: update_conv')
    qed
  qed
qed






section \<open>Store touches nothing but the files it writes\<close>

lemma os_WriteFile_result:
  assumes "os_WriteFile s (path_Join P n) bytes = (s', b)" and "configMapPath s = P"
  shows "(\<not> b \<longrightarrow> s' = s)
       \<and> (b \<longrightarrow> s' = s\<lparr>dir := AList.update n \<lparr>content = bytes, modTime = clock s\<rparr> (dir s)\<rparr>)"
  using assms by (auto simp: os_WriteFile_entry split: if_splits)

lemma os_WriteFile_frame:
  assumes "os_WriteFile s (path_Join P n) bytes = (s', b)" and "configMapPath s = P"
  shows "configMapPath s' = configMapPath s \<and> denied s' = denied s \<and> clock s' = clock s
       \<and> (distinct (map fst (dir s)) \<longrightarrow> distinct (map fst (dir s')))
       \<and> (\<forall>f. f \<noteq> n \<longrightarrow> map_of (dir s') f = map_of (dir s) f)"
  using os_WriteFile_result[OF assms] by (cases b) (auto simp: update_conv' distinct_update)

lemma StoreDataMapOnDisk_frame:
  assumes "StoreDataMapOnDisk s P p D = (s', b)" and "configMapPath s = P"
  shows "configMapPath s' = configMapPath s \<and> denied s' = denied s \<and> clock s' = clock s
       \<and> (distinct (map fst (dir s)) \<longrightarrow> distinct (map fst (dir s')))
       \<and> (\<forall>f. f \<notin> (\<lambda>k. p @ k) ` fst ` set D \<longrightarrow> map_of (dir s') f = map_of (dir s) f)"
  using assms
proof (induction D arbitrary: s)
  case Nil
  then show ?case by simp
next
  case (Cons kv D)
  obtain k v where kv: "kv = (k, v)" by (cases kv)
  obtain s1 b1 where w: "os_WriteFile s (path_Join P (p @ k)) v = (s1, b1)"
    by (cases "os_WriteFile s (path_Join P (p @ k)) v")
  note fr = os_WriteFile_frame[OF w Cons.prems(2)]
  show ?case
  proof (cases b1)
    case False
    with w kv Cons.prems(1) have "s' = s1" by simp
    moreover from False os_WriteFile_result[OF w Cons.prems(2)] have "s1 = s" by simp
    ultimately show ?thesis by simp
  next
    case True
    with w kv Cons.prems(1) have rest: "StoreDataMapOnDisk s1 P p D = (s', b)" by simp
    have "configMapPath s1 = P" using fr Cons.prems(2) by simp
    from Cons.IH[OF rest this] fr kv show ?thesis by auto
  qed
qed



lemma StoreConfigMap_unfold:
  "StoreConfigMap d s cm =
     (case os_WriteFile s
             (path_Join (configMapPath s) (buildConfigMapMetadataFileName (Name cm) (Namespace cm)))
             (encodeMetadata d (MergeMapsInPlace [(NamespaceNameLabelKey d, Namespace cm)] (Labels cm)))
      of (s1, b1) \<Rightarrow>
        if b1 then
          (case StoreDataMapOnDisk s1 (configMapPath s1)
                  (buildConfigMapFilePrefix (Name cm) (Namespace cm)) (Data cm)
           of (s2, b2) \<Rightarrow> (s2, if b2 then None else Some UnableToStoreData))
        else (s1, Some UnableToStoreMetadata))"
  by (simp add: StoreConfigMap_def StoreMetadataOnDisk_def Let_def split: prod.splits bool.splits)

lemma StoreConfigMap_frame:
  assumes "StoreConfigMap d s cm = (s', r)"
  shows "configMapPath s' = configMapPath s \<and> denied s' = denied s \<and> clock s' = clock s
       \<and> (distinct (map fst (dir s)) \<longrightarrow> distinct (map fst (dir s')))
       \<and> (\<forall>f. f \<noteq> buildConfigMapMetadataFileName (Name cm) (Namespace cm)
              \<longrightarrow> f \<notin> (\<lambda>k. buildConfigMapFilePrefix (Name cm) (Namespace cm) @ k) ` fst ` set (Data cm)
              \<longrightarrow> map_of (dir s') f = map_of (dir s) f)"
proof -
  let ?w = "os_WriteFile s
          (path_Join (configMapPath s) (buildConfigMapMetadataFileName (Name cm) (Namespace cm)))
          (encodeMetadata d (MergeMapsInPlace [(NamespaceNameLabelKey d, Namespace cm)] (Labels cm)))"
  obtain s1 b1 where w: "?w = (s1, b1)" by (cases ?w)
  note fr1 = os_WriteFile_frame[OF w refl]
  show ?thesis
  proof (cases b1)
    case False
    with assms w have "s' = s1" by (simp add: StoreConfigMap_unfold)
    with fr1 show ?thesis by simp
  next
    case True
    let ?d = "StoreDataMapOnDisk s1 (configMapPath s1)
            (buildConfigMapFilePrefix (Name cm) (Namespace cm)) (Data cm)"
    obtain s2 b2 where d: "?d = (s2, b2)" by (cases ?d)
    with assms w True have "s' = s2" by (simp add: StoreConfigMap_unfold)
    with StoreDataMapOnDisk_frame[OF d refl] fr1 show ?thesis by simp
  qed
qed


lemma readDataFiles_in_dir:
  assumes "\<forall>p. \<not> denied s OpReadFile p \<and> \<not> denied s OpStat p"
    and "set files \<subseteq> fst ` set (dir s)"
  shows "\<exists>r. readDataFiles s p files cm = Inr r"
proof (rule readDataFiles_succeeds)
  show "\<forall>f \<in> set files. HasPrefix f p \<longrightarrow>
          os_ReadFile s (path_Join (configMapPath s) f) \<noteq> None
        \<and> os_Stat s (path_Join (configMapPath s) f) \<noteq> None"
    using assms by (auto simp: os_ReadFile_entry os_Stat_entry map_of_eq_None_iff)
qed

text \<open>
  Claim C8. Whatever \<open>StoreConfigMap\<close> returns, every file other than the metadata file
  and the data files of the keys of the new data map is left as it was. In particular a
  data file of the resource for a key that the new data map lacks stays on disk
  unchanged; and when the Store succeeded (directory entries unique, reads succeeding,
  the written metadata decodable) \<open>GetConfigMap\<close> still returns that stale key with its
  old value.
\<close>

theorem Store_keeps_stale_keys:
  assumes st: "StoreConfigMap d s cm = (s', r)"
  shows "(\<forall>f. f \<noteq> buildConfigMapMetadataFileName (Name cm) (Namespace cm)
            \<longrightarrow> f \<notin> (\<lambda>k. buildConfigMapFilePrefix (Name cm) (Namespace cm) @ k) ` fst ` set (Data cm)
            \<longrightarrow> map_of (dir s') f = map_of (dir s) f)
       \<and> (\<forall>k df.
             k \<notin> fst ` set (Data cm)
             \<longrightarrow> map_of (dir s) (buildConfigMapFilePrefix (Name cm) (Namespace cm) @ k) = Some df
             \<longrightarrow> map_of (dir s') (buildConfigMapFilePrefix (Name cm) (Namespace cm) @ k) = Some df
               \<and> (r = None
                    \<longrightarrow> distinct (map fst (dir s))
                    \<longrightarrow> (\<forall>p. \<not> denied s OpReadDir p \<and> \<not> denied s OpReadFile p \<and> \<not> denied s OpStat p)
                    \<longrightarrow> decodeMetadata d (encodeMetadata d
                          (MergeMapsInPlace [(NamespaceNameLabelKey d, Namespace cm)] (Labels cm)))
                          \<noteq> None
                    \<longrightarrow> (\<exists>res. GetConfigMap d s' (Name cm) (Namespace cm) = Inr res
                              \<and> map_of (Data res) k = Some (content df))))"
proof -
  let ?p = "buildConfigMapFilePrefix (Name cm) (Namespace cm)"
  let ?mf = "buildConfigMapMetadataFileName (Name cm) (Namespace cm)"
  let ?enc = "encodeMetadata d (MergeMapsInPlace [(NamespaceNameLabelKey d, Namespace cm)] (Labels cm))"
  note fr = StoreConfigMap_frame[OF st]
  have frame: "\<forall>f. f \<noteq> ?mf \<longrightarrow> f \<notin> (\<lambda>k. ?p @ k) ` fst ` set (Data cm)
                 \<longrightarrow> map_of (dir s') f = map_of (dir s) f"
    using fr by blast
  have stale: "map_of (dir s') (?p @ k) = Some df
               \<and> (r = None
                    \<longrightarrow> distinct (map fst (dir s))
                    \<longrightarrow> (\<forall>p. \<not> denied s OpReadDir p \<and> \<not> denied s OpReadFile p \<and> \<not> denied s OpStat p)
                    \<longrightarrow> decodeMetadata d ?enc \<noteq> None
                    \<longrightarrow> (\<exists>res. GetConfigMap d s' (Name cm) (Namespace cm) = Inr res
                              \<and> map_of (Data res) k = Some (content df)))"
    if k: "k \<notin> fst ` set (Data cm)" and fl: "map_of (dir s) (?p @ k) = Some df" for k df
  proof -
    have "?p @ k \<noteq> ?mf" using metadata_name_not_data_name[of "Name cm" "Namespace cm" k] by simp
    moreover have "?p @ k \<notin> (\<lambda>k. ?p @ k) ` fst ` set (Data cm)" using k by auto
    ultimately have kept: "map_of (dir s') (?p @ k) = Some df"
      using frame fl by simp
    have "\<exists>res. GetConfigMap d s' (Name cm) (Namespace cm) = Inr res
              \<and> map_of (Data res) k = Some (content df)"
      if ok: "r = None" and dist: "distinct (map fst (dir s))"
        and reads: "\<forall>p. \<not> denied s OpReadDir p \<and> \<not> denied s OpReadFile p \<and> \<not> denied s OpStat p"
        and dec: "decodeMetadata d ?enc \<noteq> None"
    proof -
      let ?w = "os_WriteFile s (path_Join (configMapPath s) ?mf) ?enc"
      obtain s1 b1 where w: "?w = (s1, b1)" by (cases ?w)
      have b1: "b1"
      proof (rule ccontr)
        assume "\<not> b1"
        with st w ok show False by (simp add: StoreConfigMap_unfold)
      qed
      let ?d = "StoreDataMapOnDisk s1 (configMapPath s1) ?p (Data cm)"
      obtain s2 b2 where d: "?d = (s2, b2)" by (cases ?d)
      with st w b1 have s2: "s' = s2" by (simp add: StoreConfigMap_unfold)
      from os_WriteFile_result[OF w refl] b1
      have "map_of (dir s1) ?mf = Some \<lparr>content = ?enc, modTime = clock s\<rparr>"
        by (simp add: update_conv')
      moreover have "?mf \<notin> (\<lambda>k. ?p @ k) ` fst ` set (Data cm)"
        using metadata_name_not_data_name by blast
      ultimately have meta: "map_of (dir s') ?mf = Some \<lparr>content = ?enc, modTime = clock s\<rparr>"
        using StoreDataMapOnDisk_frame[OF d refl] s2 by simp
      from dec obtain m where m: "decodeMetadata d ?enc = Some m" by auto
      have reads': "\<forall>p. \<not> denied s' OpReadDir p \<and> \<not> denied s' OpReadFile p \<and> \<not> denied s' OpStat p"
        using reads fr by simp
      have dist': "distinct (map fst (dir s'))" using dist fr by simp
      let ?files = "sort (map fst (dir s'))"
      have rd: "os_ReadDir s' (configMapPath s') = Some ?files"
        using reads' by (simp add: os_ReadDir_def)
      have inlist: "?p @ k \<in> set ?files"
        using kept map_of_eq_None_iff[of "dir s'" "?p @ k"] by simp
      then have match: "hasMatchingConfigMapFile ?files ?p"
        unfolding hasMatching_iff using HasPrefix_append by blast
      have load: "LoadMetadataFromDisk d s' (configMapPath s') ?mf = Inr m"
        using reads' meta m by (simp add: LoadMetadataFromDisk_def os_ReadFile_entry)
      let ?cm0 = "\<lparr>Kind = ''ConfigMap'', APIVersion = ''v1'', Name = Name cm,
                    Namespace = Namespace cm, Labels = m, Annotations = [], Data = [],
                    CreationTimestamp = None\<rparr>"
      have get: "GetConfigMap d s' (Name cm) (Namespace cm) = readDataFiles s' ?p ?files ?cm0"
        using rd match load by (simp add: GetConfigMap_def Let_def)
      have "set ?files \<subseteq> fst ` set (dir s')" by simp
      with readDataFiles_in_dir[of s' ?files ?p ?cm0] reads' obtain res where
        res: "readDataFiles s' ?p ?files ?cm0 = Inr res" by blast
      have "distinct ?files" using dist' by simp
      from readDataFiles_Data[OF res this, of k] inlist kept
      have "map_of (Data res) k = Some (content df)" by simp
      with get res show ?thesis by simp
    qed
    with kept show ?thesis by blast
  qed
  from frame stale show ?thesis by blast
qed


theorem Store_keeps_stale_keys_witness:
  "StoreConfigMap k2d storedOnce updatedConfigMap
     = (fst (StoreConfigMap k2d storedOnce updatedConfigMap), None)
   \<and> ''B'' \<notin> fst ` set (Data updatedConfigMap)
   \<and> map_of (dir storedOnce) (buildConfigMapFilePrefix ''app-config'' ''default'' @ ''B'')
       = Some \<lparr>content = ''2'', modTime = 0\<rparr>
   \<and> map_of (dir (fst (StoreConfigMap k2d storedOnce updatedConfigMap)))
         (buildConfigMapFilePrefix ''app-config'' ''default'' @ ''B'')
       = Some \<lparr>content = ''2'', modTime = 0\<rparr>
   \<and> (\<exists>res. GetConfigMap k2d (fst (StoreConfigMap k2d storedOnce updatedConfigMap))
                ''app-config'' ''default'' = Inr res
            \<and> map_of (Data res) ''B'' = Some ''2'')
   \<and> map_of (dir (fst (StoreConfigMap k2d storedOnce updatedConfigMap)))
         (buildConfigMapFilePrefix ''app-config'' ''default'' @ ''A'')
       = Some \<lparr>content = ''9'', modTime = 0\<rparr>"
proof -
  let ?s' = "fst (StoreConfigMap k2d storedOnce updatedConfigMap)"
  let ?B = "\<lparr>content = ''2'', modTime = 0\<rparr>"
  have sel: "Name updatedConfigMap = ''app-config''" "Namespace updatedConfigMap = ''default''"
    by (simp_all add: updatedConfigMap_def newConfigMap_def)
  have "snd (StoreConfigMap k2d storedOnce updatedConfigMap) = None" by code_simp
  then have h: "StoreConfigMap k2d storedOnce updatedConfigMap = (?s', None)"
    by (simp add: prod_eq_iff)
  have k: "''B'' \<notin> fst ` set (Data updatedConfigMap)" by code_simp
  have f: "map_of (dir storedOnce) (buildConfigMapFilePrefix ''app-config'' ''default'' @ ''B'')
             = Some ?B" by code_simp
  have a: "map_of (dir ?s') (buildConfigMapFilePrefix ''app-config'' ''default'' @ ''A'')
             = Some \<lparr>content = ''9'', modTime = 0\<rparr>" by code_simp
  have dist: "distinct (map fst (dir storedOnce))" by code_simp
  have "denied storedOnce = denied emptyStore"
    using StoreConfigMap_frame[of k2d emptyStore
        "newConfigMap ''app-config'' ''default'' [(''env'', ''prod'')] [(''A'', ''1''), (''B'', ''2'')]"
        storedOnce
        "snd (StoreConfigMap k2d emptyStore
           (newConfigMap ''app-config'' ''default'' [(''env'', ''prod'')] [(''A'', ''1''), (''B'', ''2'')]))"]
    by (simp add: storedOnce_def)
  then have reads: "\<forall>p. \<not> denied storedOnce OpReadDir p \<and> \<not> denied storedOnce OpReadFile p
                        \<and> \<not> denied storedOnce OpStat p"
    by (simp add: emptyStore_def)
  have dec: "decodeMetadata k2d (encodeMetadata k2d
               (MergeMapsInPlace [(NamespaceNameLabelKey k2d, Namespace updatedConfigMap)]
                  (Labels updatedConfigMap))) \<noteq> None"
    by code_simp
  from Store_keeps_stale_keys[OF h] have
    "\<forall>k df. k \<notin> fst ` set (Data updatedConfigMap)
        \<longrightarrow> map_of (dir storedOnce) (buildConfigMapFilePrefix ''app-config'' ''default'' @ k) = Some df
        \<longrightarrow> map_of (dir ?s') (buildConfigMapFilePrefix ''app-config'' ''default'' @ k) = Some df
          \<and> (None = (None :: error option)
               \<longrightarrow> distinct (map fst (dir storedOnce))
               \<longrightarrow> (\<forall>p. \<not> denied storedOnce OpReadDir p \<and> \<not> denied storedOnce OpReadFile p
                        \<and> \<not> denied storedOnce OpStat p)
               \<longrightarrow> decodeMetadata k2d (encodeMetadata k2d
                     (MergeMapsInPlace [(NamespaceNameLabelKey k2d, Namespace updatedConfigMap)]
                        (Labels updatedConfigMap))) \<noteq> None
               \<longrightarrow> (\<exists>res. GetConfigMap k2d ?s' ''app-config'' ''default'' = Inr res
                         \<and> map_of (Data res) k = Some (content df)))"
    unfolding sel by (rule conjunct2)
  from this[rule_format, OF k f] dist reads dec
  have "map_of (dir ?s') (buildConfigMapFilePrefix ''app-config'' ''default'' @ ''B'') = Some ?B
        \<and> (\<exists>res. GetConfigMap k2d ?s' ''app-config'' ''default'' = Inr res
                  \<and> map_of (Data res) ''B'' = Some ''2'')"
    by simp
  with h k f a show ?thesis by blast
qed

section \<open>Path annotations and binds\<close>

lemma annotationKey_inject [simp]: "annotationKey k = annotationKey k' \<longleftrightarrow> k = k'"
  by (simp add: annotationKey_def)









section \<open>Listing a namespace\<close>

lemma stripSuffix_append [simp]: "stripSuffix sfx (x @ sfx) = Some x"
  by (simp add: stripSuffix_def suffix_def)

lemma list_vs_read:
  "listDataFiles s p files (cm\<lparr>Annotations := A\<rparr>)
     = (case readDataFiles s p files cm of
          Inl e \<Rightarrow> Inl e
        | Inr g \<Rightarrow> Inr (g\<lparr>Annotations := A\<rparr>))"
proof (induction files arbitrary: cm)
  case Nil
  then show ?case by simp
next
  case (Cons f files)
  show ?case
  proof (cases "HasPrefix f p")
    case False
    with Cons.IH[of cm] show ?thesis by simp
  next
    case True
    show ?thesis
    proof (cases "os_ReadFile s (path_Join (configMapPath s) f)")
      case None
      with True show ?thesis by simp
    next
      case (Some bytes)
      show ?thesis
      proof (cases "os_Stat s (path_Join (configMapPath s) f)")
        case None
        with True Some show ?thesis by simp
      next
        case (Some info)
        let ?next = "cm\<lparr>Data := AList.update (TrimPrefix f p) bytes (Data cm),
                       CreationTimestamp := Some info,
                       Annotations := AList.update (FilePathAnnotationKey @ ''/'' @ TrimPrefix f p)
                           (path_Join (configMapPath s) f) (Annotations cm)\<rparr>"
        have same: "(cm\<lparr>Annotations := A\<rparr>)\<lparr>Data := AList.update (TrimPrefix f p) bytes
                        (Data (cm\<lparr>Annotations := A\<rparr>)), CreationTimestamp := Some info\<rparr>
                    = ?next\<lparr>Annotations := A\<rparr>"
          by (cases cm) simp
        have "listDataFiles s p (f # files) (cm\<lparr>Annotations := A\<rparr>)
                = listDataFiles s p files (?next\<lparr>Annotations := A\<rparr>)"
          using True \<open>os_ReadFile s (path_Join (configMapPath s) f) = Some bytes\<close> Some
          by (simp only: listDataFiles.simps if_True option.case same)
        moreover have "readDataFiles s p (f # files) cm = readDataFiles s p files ?next"
          using True \<open>os_ReadFile s (path_Join (configMapPath s) f) = Some bytes\<close> Some
          by simp
        ultimately show ?thesis using Cons.IH[of ?next] by simp
      qed
    qed
  qed
qed

lemma listItems_member:
  "listItems d s files names = Inr items \<Longrightarrow> item \<in> set items \<Longrightarrow>
     \<exists>name \<in> set names. listItem d s files name = Inr item"
  by (induction names arbitrary: items) (auto split: sum.splits)

lemma beforeSep_no_occurrence: "\<not> sublist sep f \<Longrightarrow> sep \<noteq> [] \<Longrightarrow> beforeSep sep f = f"
proof (induction f)
  case Nil
  then show ?case by simp
next
  case (Cons c cs)
  then have "\<not> prefix sep (c # cs)" using prefix_imp_sublist by blast
  moreover have "\<not> sublist sep cs" using Cons.prems(1) by (auto simp: sublist_Cons_right)
  ultimately show ?case using Cons by simp
qed

lemma beforeSep_occurrence: "sublist sep f \<Longrightarrow> sep \<noteq> [] \<Longrightarrow> prefix (beforeSep sep f @ sep) f"
proof (induction f)
  case Nil
  then show ?case by simp
next
  case (Cons c cs)
  show ?case
  proof (cases "prefix sep (c # cs)")
    case True
    then show ?thesis by simp
  next
    case False
    with Cons.prems have "sublist sep cs" by (auto simp: sublist_Cons_right)
    with Cons.IH Cons.prems(2) False show ?thesis by simp
  qed
qed

lemma readDataFiles_annotated:
  "readDataFiles s p files cm = Inr r \<Longrightarrow>
     (\<exists>f \<in> set files. HasPrefix f p) \<or> Annotations cm \<noteq> [] \<Longrightarrow> Annotations r \<noteq> []"
proof (induction files arbitrary: cm)
  case Nil
  then show ?case by simp
next
  case (Cons f files)
  show ?case
  proof (cases "HasPrefix f p")
    case False
    with Cons show ?thesis by auto
  next
    case True
    from True Cons.prems(1) obtain bytes info where
      rest: "readDataFiles s p files
                   (cm\<lparr>Data := AList.update (TrimPrefix f p) bytes (Data cm),
                       CreationTimestamp := Some info,
                       Annotations := AList.update (FilePathAnnotationKey @ ''/'' @ TrimPrefix f p)
                           (path_Join (configMapPath s) f) (Annotations cm)\<rparr>) = Inr r"
      by (auto split: option.splits)
    show ?thesis by (rule Cons.IH[OF rest]) simp
  qed
qed


lemma LoadMetadataFromDisk_Inr:
  assumes "LoadMetadataFromDisk d s (configMapPath s) f = Inr m"
  shows "\<exists>df. (f, df) \<in> set (dir s) \<and> decodeMetadata d (content df) = Some m"
proof -
  from assms obtain bytes where rf: "os_ReadFile s (path_Join (configMapPath s) f) = Some bytes"
    and dec: "decodeMetadata d bytes = Some m"
    by (auto simp: LoadMetadataFromDisk_def split: option.splits)
  from rf obtain df where "map_of (dir s) f = Some df" and "content df = bytes"
    by (auto simp: os_ReadFile_entry split: if_splits)
  with dec show ?thesis by (auto dest: map_of_SomeD)
qed

subsection \<open>Store and Delete keep the directory well formed\<close>

text \<open>
  The empty directory is well formed, \<open>DeleteConfigMap\<close> keeps a directory well formed,
  and so does \<open>StoreConfigMap\<close> when no data file name of the resource ends in the
  metadata suffix and the written metadata decodes to labels that name the resource's
  namespace.
\<close>

lemma list_all_update:
  "list_all Q al \<Longrightarrow> Q (k, v) \<Longrightarrow> list_all Q (AList.update k v al)"
  by (induction al) auto

lemma list_all_delete: "list_all Q al \<Longrightarrow> list_all Q (AList.delete k al)"
  by (induction al) auto

lemma os_WriteFile_keeps:
  assumes "os_WriteFile s (path_Join P n) bytes = (s', b)" and "configMapPath s = P"
    and "list_all Q (dir s)" and "Q (n, \<lparr>content = bytes, modTime = clock s\<rparr>)"
  shows "list_all Q (dir s')"
  using os_WriteFile_result[OF assms(1,2)] assms(3,4)
  by (cases b) (auto intro: list_all_update)

lemma StoreDataMapOnDisk_keeps:
  assumes "StoreDataMapOnDisk s P p D = (s', b)" and "configMapPath s = P"
    and "list_all Q (dir s)"
    and "\<forall>(k, v) \<in> set D. Q (p @ k, \<lparr>content = v, modTime = clock s\<rparr>)"
  shows "list_all Q (dir s')"
  using assms
proof (induction D arbitrary: s)
  case Nil
  then show ?case by simp
next
  case (Cons kv D)
  obtain k v where kv: "kv = (k, v)" by (cases kv)
  obtain s1 b1 where w: "os_WriteFile s (path_Join P (p @ k)) v = (s1, b1)"
    by (cases "os_WriteFile s (path_Join P (p @ k)) v")
  have q: "Q (p @ k, \<lparr>content = v, modTime = clock s\<rparr>)" using Cons.prems(4) kv by simp
  note keep = os_WriteFile_keeps[OF w Cons.prems(2,3) q]
  note fr = os_WriteFile_frame[OF w Cons.prems(2)]
  show ?case
  proof (cases b1)
    case False
    with w kv Cons.prems(1) have "s' = s1" by simp
    with keep show ?thesis by simp
  next
    case True
    with w kv Cons.prems(1) have rest: "StoreDataMapOnDisk s1 P p D = (s', b)" by simp
    have p1: "configMapPath s1 = P" using fr Cons.prems(2) by simp
    have "\<forall>(k, v) \<in> set D. Q (p @ k, \<lparr>content = v, modTime = clock s1\<rparr>)"
      using Cons.prems(4) fr by auto
    from Cons.IH[OF rest p1 keep this] show ?thesis .
  qed
qed

lemma StoreConfigMap_keeps:
  assumes st: "StoreConfigMap d s cm = (s', r)"
    and inv: "list_all Q (dir s)"
    and qm: "Q (buildConfigMapMetadataFileName (Name cm) (Namespace cm),
               \<lparr>content = encodeMetadata d
                   (MergeMapsInPlace [(NamespaceNameLabelKey d, Namespace cm)] (Labels cm)),
                modTime = clock s\<rparr>)"
    and qd: "\<forall>(k, v) \<in> set (Data cm).
               Q (buildConfigMapFilePrefix (Name cm) (Namespace cm) @ k,
                  \<lparr>content = v, modTime = clock s\<rparr>)"
  shows "list_all Q (dir s')"
proof -
  let ?w = "os_WriteFile s
          (path_Join (configMapPath s) (buildConfigMapMetadataFileName (Name cm) (Namespace cm)))
          (encodeMetadata d (MergeMapsInPlace [(NamespaceNameLabelKey d, Namespace cm)] (Labels cm)))"
  obtain s1 b1 where w: "?w = (s1, b1)" by (cases ?w)
  note keep = os_WriteFile_keeps[OF w refl inv qm]
  note fr1 = os_WriteFile_frame[OF w refl]
  show ?thesis
  proof (cases b1)
    case False
    with st w have "s' = s1" by (simp add: StoreConfigMap_unfold)
    with keep show ?thesis by simp
  next
    case True
    let ?d = "StoreDataMapOnDisk s1 (configMapPath s1)
            (buildConfigMapFilePrefix (Name cm) (Namespace cm)) (Data cm)"
    obtain s2 b2 where d: "?d = (s2, b2)" by (cases ?d)
    with st w True have s2: "s' = s2" by (simp add: StoreConfigMap_unfold)
    have "\<forall>(k, v) \<in> set (Data cm).
               Q (buildConfigMapFilePrefix (Name cm) (Namespace cm) @ k,
                  \<lparr>content = v, modTime = clock s1\<rparr>)"
      using qd fr1 by auto
    from StoreDataMapOnDisk_keeps[OF d refl keep this] s2 show ?thesis by simp
  qed
qed

lemma StoreConfigMap_entriesTagged:
  assumes "StoreConfigMap d s cm = (s', r)" and "entriesTagged s"
  shows "entriesTagged s'"
  unfolding entriesTagged_def
proof (rule StoreConfigMap_keeps[OF assms(1)])
  show "list_all (\<lambda>(f, df). HasSuffix f ''.metadata'' \<or> sublist ConfigMapSeparator f) (dir s)"
    using assms(2) by (simp add: entriesTagged_def)
  show "case (buildConfigMapMetadataFileName (Name cm) (Namespace cm),
               \<lparr>content = encodeMetadata d
                   (MergeMapsInPlace [(NamespaceNameLabelKey d, Namespace cm)] (Labels cm)),
                modTime = clock s\<rparr>) of
          (f, df) \<Rightarrow> HasSuffix f ''.metadata'' \<or> sublist ConfigMapSeparator f"
    by (simp add: HasSuffix_def buildConfigMapMetadataFileName_def suffix_def)
  show "\<forall>(k, v) \<in> set (Data cm).
          case (buildConfigMapFilePrefix (Name cm) (Namespace cm) @ k,
                \<lparr>content = v, modTime = clock s\<rparr>) of
            (f, df) \<Rightarrow> HasSuffix f ''.metadata'' \<or> sublist ConfigMapSeparator f"
  proof -
    have "sublist ConfigMapSeparator (buildConfigMapFilePrefix (Name cm) (Namespace cm) @ k)" for k
    proof -
      have "buildConfigMapFilePrefix (Name cm) (Namespace cm) @ k
              = (Namespace cm @ ''-'' @ Name cm) @ ConfigMapSeparator @ k"
        by (simp add: buildConfigMapFilePrefix_def)
      then show ?thesis unfolding sublist_def by blast
    qed
    then show ?thesis by simp
  qed
qed

lemma StoreConfigMap_metadataAgrees:
  assumes "StoreConfigMap d s cm = (s', r)" and "metadataAgrees d s"
    and keys: "\<forall>k \<in> fst ` set (Data cm).
                 \<not> HasSuffix (buildConfigMapFilePrefix (Name cm) (Namespace cm) @ k) ''-k2dcm.metadata''"
    and label: "\<forall>m. decodeMetadata d (encodeMetadata d
                  (MergeMapsInPlace [(NamespaceNameLabelKey d, Namespace cm)] (Labels cm))) = Some m
                \<longrightarrow> mapIndex m (NamespaceNameLabelKey d) = Namespace cm"
  shows "metadataAgrees d s'"
  unfolding metadataAgrees_def
proof (rule StoreConfigMap_keeps[OF assms(1)])
  let ?Q = "\<lambda>(f, df). case stripSuffix ''-k2dcm.metadata'' f of
          None \<Rightarrow> True
        | Some ident \<Rightarrow>
            (case decodeMetadata d (content df) of
               None \<Rightarrow> True
             | Some m \<Rightarrow> HasPrefix ident (mapIndex m (NamespaceNameLabelKey d) @ ''-''))"
  show "list_all ?Q (dir s)" using assms(2) by (simp add: metadataAgrees_def)
  have "stripSuffix ''-k2dcm.metadata'' (buildConfigMapMetadataFileName (Name cm) (Namespace cm))
          = Some (Namespace cm @ ''-'' @ Name cm)"
    using stripSuffix_append[of "''-k2dcm.metadata''" "Namespace cm @ ''-'' @ Name cm"]
    by (simp add: buildConfigMapMetadataFileName_def)
  then show "?Q (buildConfigMapMetadataFileName (Name cm) (Namespace cm),
               \<lparr>content = encodeMetadata d
                   (MergeMapsInPlace [(NamespaceNameLabelKey d, Namespace cm)] (Labels cm)),
                modTime = clock s\<rparr>)"
    using label by (auto simp: HasPrefix_def split: option.splits)
  show "\<forall>(k, v) \<in> set (Data cm).
          ?Q (buildConfigMapFilePrefix (Name cm) (Namespace cm) @ k,
              \<lparr>content = v, modTime = clock s\<rparr>)"
    using keys by (force simp: stripSuffix_def HasSuffix_def)
qed

lemma emptyStore_well_formed: "entriesTagged emptyStore \<and> metadataAgrees d emptyStore"
  by (simp add: entriesTagged_def metadataAgrees_def emptyStore_def)


lemma os_Remove_keeps:
  assumes "os_Remove s (path_Join P n) = (s', b)" and "configMapPath s = P"
    and "list_all Q (dir s)"
  shows "list_all Q (dir s') \<and> configMapPath s' = P"
proof (cases b)
  case True
  with assms(1,2) have "s' = s\<lparr>dir := AList.delete n (dir s)\<rparr>"
    using os_Remove_True[of s n s'] by simp
  with assms(2,3) show ?thesis by (simp add: list_all_delete)
next
  case False
  with assms(1) have "s' = s" using os_Remove_False by simp
  with assms(2,3) show ?thesis by simp
qed

lemma removeDataFiles_keeps:
  "removeDataFiles s p files = (s', r) \<Longrightarrow> list_all Q (dir s) \<Longrightarrow> list_all Q (dir s')"
proof (induction files arbitrary: s)
  case Nil
  then show ?case by simp
next
  case (Cons f files)
  show ?case
  proof (cases "HasPrefix f p")
    case False
    with Cons show ?thesis by simp
  next
    case True
    obtain s1 b1 where rm: "os_Remove s (path_Join (configMapPath s) f) = (s1, b1)"
      by (cases "os_Remove s (path_Join (configMapPath s) f)")
    note keep = os_Remove_keeps[OF rm refl Cons.prems(2)]
    show ?thesis
    proof (cases b1)
      case False
      with True rm Cons.prems(1) have "s' = s1" by simp
      with keep show ?thesis by simp
    next
      case b: True
      with True rm Cons.prems(1) have "removeDataFiles s1 p files = (s', r)" by simp
      from Cons.IH[OF this] keep show ?thesis by simp
    qed
  qed
qed

lemma DeleteConfigMap_keeps:
  assumes "DeleteConfigMap s n ns = (s', r)" and "list_all Q (dir s)"
  shows "list_all Q (dir s')"
proof (cases "os_ReadDir s (configMapPath s)")
  case None
  with assms show ?thesis by (simp add: DeleteConfigMap_def)
next
  case (Some files)
  show ?thesis
  proof (cases "hasMatchingConfigMapFile files (buildConfigMapFilePrefix n ns)")
    case False
    with Some assms show ?thesis by (simp add: DeleteConfigMap_def Let_def)
  next
    case True
    let ?rm = "os_Remove s (path_Join (configMapPath s) (buildConfigMapMetadataFileName n ns))"
    obtain s1 b1 where rm: "?rm = (s1, b1)" by (cases ?rm)
    note keep = os_Remove_keeps[OF rm refl assms(2)]
    show ?thesis
    proof (cases b1)
      case False
      with Some True rm assms(1) have "s' = s1" by (simp add: DeleteConfigMap_def Let_def)
      with keep show ?thesis by simp
    next
      case b: True
      with Some True rm assms(1)
      have "removeDataFiles s1 (buildConfigMapFilePrefix n ns) files = (s', r)"
        by (simp add: DeleteConfigMap_def Let_def)
      from removeDataFiles_keeps[OF this] keep show ?thesis by simp
    qed
  qed
qed

lemma DeleteConfigMap_well_formed:
  assumes "DeleteConfigMap s n ns = (s', r)" and "entriesTagged s" and "metadataAgrees d s"
  shows "entriesTagged s' \<and> metadataAgrees d s'"
  using assms DeleteConfigMap_keeps[OF assms(1)]
  unfolding entriesTagged_def metadataAgrees_def by blast

subsection \<open>List items and Get\<close>

text \<open>
  Claim C5, as stated, fails: \<open>GetConfigMaps\<close> never builds the path annotations that
  \<open>GetConfigMap\<close> adds for each data file, so in the scenario of the spec the listed
  item has no annotations while the resource read by name has two. And since the claim
  speaks of every store state: listing derives the identities from the file names and
  the namespace label, so a directory with an entry that lacks the separator, or with a
  metadata file labelled with another namespace, lists an item that \<open>GetConfigMap\<close>
  does not find.
\<close>

theorem List_items_agree_with_Get_counterexample:
  "GetConfigMaps k2d storedOnce ''default''
     = Inr [\<lparr>Kind = ''ConfigMap'', APIVersion = ''v1'', Name = ''app-config'',
              Namespace = ''default'',
              Labels = [(''store.k2d.io/namespace-name'', ''default''), (''env'', ''prod'')],
              Annotations = [],
              Data = [(''A'', ''1''), (''B'', ''2'')],
              CreationTimestamp = Some 0\<rparr>]
   \<and> GetConfigMap k2d storedOnce ''app-config'' ''default''
     = Inr \<lparr>Kind = ''ConfigMap'', APIVersion = ''v1'', Name = ''app-config'',
             Namespace = ''default'',
             Labels = [(''store.k2d.io/namespace-name'', ''default''), (''env'', ''prod'')],
             Annotations =
               [(''store.k2d.io/filesystem/path/A'',
                 ''/var/lib/k2d/configmaps/default-app-config-k2dcm-A''),
                (''store.k2d.io/filesystem/path/B'',
                 ''/var/lib/k2d/configmaps/default-app-config-k2dcm-B'')],
             Data = [(''A'', ''1''), (''B'', ''2'')],
             CreationTimestamp = Some 0\<rparr>
   \<and> hd (projr (GetConfigMaps k2d storedOnce ''default''))
       \<noteq> projr (GetConfigMap k2d storedOnce ''app-config'' ''default'')
   \<and> GetConfigMaps k2d strayEntry ''a''
     = Inr [\<lparr>Kind = ''ConfigMap'', APIVersion = ''v1'', Name = ''foo'', Namespace = ''a'',
              Labels = [(''store.k2d.io/namespace-name'', ''a'')], Annotations = [],
              Data = [], CreationTimestamp = None\<rparr>]
   \<and> GetConfigMap k2d strayEntry ''foo'' ''a'' = Inl ErrResourceNotFound
   \<and> GetConfigMaps k2d mislabelled ''a''
     = Inr [\<lparr>Kind = ''ConfigMap'', APIVersion = ''v1'', Name = ''a-x'', Namespace = ''zz'',
              Labels = [(''store.k2d.io/namespace-name'', ''zz'')], Annotations = [],
              Data = [], CreationTimestamp = None\<rparr>]
   \<and> GetConfigMap k2d mislabelled ''a-x'' ''zz'' = Inl ErrResourceNotFound"
  by code_simp

text \<open>
  Claim C5, amended. On a well-formed store directory, every item of the list returned
  by \<open>GetConfigMaps\<close> equals the resource that \<open>GetConfigMap\<close> returns for the item's
  own name and namespace on the same state in every field but the annotations (kind,
  name, namespace, labels, data, timestamp): the item has no annotations, the resource
  read by name has some.
\<close>

theorem List_items_agree_with_Get:
  assumes list: "GetConfigMaps d s ns = Inr items"
    and item: "item \<in> set items"
    and agree: "metadataAgrees d s"
    and tagged: "entriesTagged s"
  shows "\<exists>g. GetConfigMap d s (Name item) (Namespace item) = Inr g
            \<and> item = g\<lparr>Annotations := []\<rparr>
            \<and> Annotations g \<noteq> []"
proof -
  let ?files = "sort (map fst (dir s))"
  from list have rd: "os_ReadDir s (configMapPath s) = Some ?files"
    by (auto simp: GetConfigMaps_def os_ReadDir_def split: option.splits if_splits)
  let ?names = "RemoveItemsWithSuffix
                  (FilterStringsByPrefix (UniquePrefixes ?files ConfigMapSeparator) ns) ''.metadata''"
  from list rd have "listItems d s ?files ?names = Inr items"
    by (simp add: GetConfigMaps_def Let_def)
  from listItems_member[OF this item] obtain ident where
    ident: "ident \<in> set ?names" and li: "listItem d s ?files ident = Inr item" by blast
  from ident obtain f where f: "f \<in> fst ` set (dir s)"
    and split: "ident = SplitFirst f ConfigMapSeparator"
    and nometa: "\<not> HasSuffix ident ''.metadata''"
    by (auto simp: RemoveItemsWithSuffix_def FilterStringsByPrefix_def UniquePrefixes_def)
  have sepne: "ConfigMapSeparator \<noteq> []" by (simp add: ConfigMapSeparator_def)
  have bs: "ident = beforeSep ConfigMapSeparator f"
    using split sepne by (simp add: SplitFirst_def)
  from f tagged have "HasSuffix f ''.metadata'' \<or> sublist ConfigMapSeparator f"
    by (auto simp: entriesTagged_def list_all_iff)
  then have occ: "sublist ConfigMapSeparator f"
  proof
    assume m: "HasSuffix f ''.metadata''"
    show ?thesis
    proof (rule ccontr)
      assume "\<not> sublist ConfigMapSeparator f"
      then have "ident = f" using bs sepne by (simp add: beforeSep_no_occurrence)
      with m nometa show False by simp
    qed
  qed
  then have fpre: "HasPrefix f (ident @ ConfigMapSeparator)"
    using bs sepne by (simp add: HasPrefix_def beforeSep_occurrence)
  let ?mf = "ident @ ''-k2dcm.metadata''"
  from li obtain m where load: "LoadMetadataFromDisk d s (configMapPath s) ?mf = Inr m"
    by (auto simp: listItem_def Let_def split: sum.splits)
  let ?ns = "mapIndex m (NamespaceNameLabelKey d)"
  let ?nm = "TrimPrefix ident (?ns @ ''-'')"
  let ?cm0 = "\<lparr>Kind = ''ConfigMap'', APIVersion = ''v1'', Name = ?nm, Namespace = ?ns,
               Labels = m, Annotations = [], Data = [], CreationTimestamp = None\<rparr>"
  from li load have ldf: "listDataFiles s (buildConfigMapFilePrefix ?nm ?ns) ?files
                            (?cm0\<lparr>Annotations := []\<rparr>) = Inr item"
    by (simp add: listItem_def Let_def)
  from LoadMetadataFromDisk_Inr[OF load] obtain df where
    "(?mf, df) \<in> set (dir s)" and "decodeMetadata d (content df) = Some m" by blast
  with agree have "HasPrefix ident (?ns @ ''-'')"
    by (auto simp: metadataAgrees_def list_all_iff)
  then have id: "ident = ?ns @ ''-'' @ ?nm"
    using HasPrefix_decompose[of ident "?ns @ ''-''"] by simp
  have pfx: "buildConfigMapFilePrefix ?nm ?ns = ident @ ConfigMapSeparator"
    using id by (simp add: buildConfigMapFilePrefix_def)
  have mfn: "buildConfigMapMetadataFileName ?nm ?ns = ?mf"
    using id by (simp add: buildConfigMapMetadataFileName_def)
  from ldf obtain g where
    r: "readDataFiles s (buildConfigMapFilePrefix ?nm ?ns) ?files ?cm0 = Inr g"
    and ig: "item = g\<lparr>Annotations := []\<rparr>"
    using list_vs_read[where s = s and p = "buildConfigMapFilePrefix ?nm ?ns"
        and files = ?files and cm = ?cm0 and A = "[]"]
    by (auto split: sum.splits)
  from readDataFiles_fields[OF r] ig have nn: "Name item = ?nm" "Namespace item = ?ns"
    by simp_all
  have "f \<in> set ?files" using f by simp
  with fpre have match: "hasMatchingConfigMapFile ?files (buildConfigMapFilePrefix ?nm ?ns)"
    unfolding hasMatching_iff pfx by blast
  have get: "GetConfigMap d s ?nm ?ns = Inr g"
    using rd match load r by (simp add: GetConfigMap_def Let_def mfn)
  from match have "\<exists>f \<in> set ?files. HasPrefix f (buildConfigMapFilePrefix ?nm ?ns)"
    by (simp add: hasMatching_iff)
  then have "Annotations g \<noteq> []"
    using readDataFiles_annotated[OF r] by blast
  with get ig nn show ?thesis by auto
qed

theorem List_items_agree_with_Get_witness:
  "GetConfigMaps k2d twoNamespaces ''a-b''
     = Inr [\<lparr>Kind = ''ConfigMap'', APIVersion = ''v1'', Name = ''y'', Namespace = ''a-b'',
              Labels = [(''store.k2d.io/namespace-name'', ''a-b'')], Annotations = [],
              Data = [(''K'', ''2'')], CreationTimestamp = Some 0\<rparr>]
   \<and> metadataAgrees k2d twoNamespaces
   \<and> entriesTagged twoNamespaces
   \<and> (\<exists>g. GetConfigMap k2d twoNamespaces ''y'' ''a-b'' = Inr g
          \<and> \<lparr>Kind = ''ConfigMap'', APIVersion = ''v1'', Name = ''y'', Namespace = ''a-b'',
              Labels = [(''store.k2d.io/namespace-name'', ''a-b'')], Annotations = [],
              Data = [(''K'', ''2'')], CreationTimestamp = Some 0\<rparr> = g\<lparr>Annotations := []\<rparr>
          \<and> Annotations g \<noteq> [])"
proof -
  let ?item = "\<lparr>Kind = ''ConfigMap'', APIVersion = ''v1'', Name = ''y'', Namespace = ''a-b'',
              Labels = [(''store.k2d.io/namespace-name'', ''a-b'')], Annotations = [],
              Data = [(''K'', ''2'')], CreationTimestamp = Some 0\<rparr>"
  have h1: "GetConfigMaps k2d twoNamespaces ''a-b'' = Inr [?item]" by code_simp
  have h2: "?item \<in> set [?item]" by simp
  have h3: "metadataAgrees k2d twoNamespaces" by code_simp
  have h4: "entriesTagged twoNamespaces" by code_simp
  from List_items_agree_with_Get[OF h1 h2 h3 h4] h1 h3 h4 show ?thesis by simp
qed

text \<open>
  Claim C4 says that listing namespace \<open>A\<close> returns the resources of \<open>A\<close> and none of
  another namespace \<open>B\<close>. The code keeps every identity that starts with the requested
  namespace as a string, so with one resource stored in namespace \<open>a\<close> and one in
  namespace \<open>a-b\<close>, listing \<open>a\<close> returns both (in the order of the unique names, which
  Go leaves open).
\<close>

theorem List_crosses_namespaces:
  "twoNamespaces
     = fst (StoreConfigMap k2d
              (fst (StoreConfigMap k2d emptyStore (newConfigMap ''x'' ''a'' [] [(''K'', ''1'')])))
              (newConfigMap ''y'' ''a-b'' [] [(''K'', ''2'')]))
   \<and> GetConfigMaps k2d twoNamespaces ''a''
     = Inr [\<lparr>Kind = ''ConfigMap'', APIVersion = ''v1'', Name = ''y'', Namespace = ''a-b'',
              Labels = [(''store.k2d.io/namespace-name'', ''a-b'')], Annotations = [],
              Data = [(''K'', ''2'')], CreationTimestamp = Some 0\<rparr>,
            \<lparr>Kind = ''ConfigMap'', APIVersion = ''v1'', Name = ''x'', Namespace = ''a'',
              Labels = [(''store.k2d.io/namespace-name'', ''a'')], Annotations = [],
              Data = [(''K'', ''1'')], CreationTimestamp = Some 0\<rparr>]"
proof -
  have "GetConfigMaps k2d twoNamespaces ''a''
     = Inr [\<lparr>Kind = ''ConfigMap'', APIVersion = ''v1'', Name = ''y'', Namespace = ''a-b'',
              Labels = [(''store.k2d.io/namespace-name'', ''a-b'')], Annotations = [],
              Data = [(''K'', ''2'')], CreationTimestamp = Some 0\<rparr>,
            \<lparr>Kind = ''ConfigMap'', APIVersion = ''v1'', Name = ''x'', Namespace = ''a'',
              Labels = [(''store.k2d.io/namespace-name'', ''a'')], Annotations = [],
              Data = [(''K'', ''1'')], CreationTimestamp = Some 0\<rparr>]"
    by code_simp
  then show ?thesis by (simp add: twoNamespaces_def)
qed

end
